theory Spec2Isabelle
  imports Main
begin

section \<open>Python values, exceptions and dictionaries\<close>

text \<open>
  The forwarder is one Python module, \<^verbatim>\<open>humble_forwarder.py\<close>. Its functions are
  embedded below under their own names. A Python value that is either \<^verbatim>\<open>None\<close> or a
  \<^verbatim>\<open>str\<close> is a \<open>string option\<close>; an exception that leaves a function is the \<open>Inl\<close>
  branch of its result.
\<close>

datatype exn = IndexError | ValueError | TypeError | ClientError string | OtherError string

text \<open>Truth value of \<^verbatim>\<open>if v:\<close> for a value that is \<^verbatim>\<open>None\<close> or a string.\<close>

definition truthy :: "string option \<Rightarrow> bool" where
  "truthy v = (case v of None \<Rightarrow> False | Some s \<Rightarrow> s \<noteq> [])"

text \<open>\<^verbatim>\<open>str.lower()\<close> on the ASCII letters, which is what header names consist of.\<close>

definition lower_char :: "char \<Rightarrow> char" where
  "lower_char c =
     (let n = (of_char c :: nat) in if 65 \<le> n \<and> n \<le> 90 then char_of (n + 32) else c)"

definition str_lower :: "string \<Rightarrow> string" where
  "str_lower s = map lower_char s"

text \<open>
  A Python \<^verbatim>\<open>dict\<close> keeps its keys in insertion order; \<^verbatim>\<open>d[k] = v\<close> overwrites the
  value of an existing key in place and appends a new key at the end.
\<close>

primrec dict_set :: "('k \<times> 'v) list \<Rightarrow> 'k \<Rightarrow> 'v \<Rightarrow> ('k \<times> 'v) list" where
  "dict_set [] k v = [(k, v)]"
| "dict_set (p # ps) k v = (if fst p = k then (k, v) # ps else p # dict_set ps k v)"

definition dict_get :: "('k \<times> 'v) list \<Rightarrow> 'k \<Rightarrow> 'v option" where
  "dict_get d k = map_of d k"


section \<open>The message object of the standard library\<close>

text \<open>
  \<^verbatim>\<open>email.message.EmailMessage\<close> under \<^verbatim>\<open>email.policy.SMTP\<close>, as far as the forwarder
  uses it: an ordered list of header fields, where a name may occur several times, and
  a payload that the forwarder never inspects. The value of a field is the text of
  the header object that \<^verbatim>\<open>msg[name]\<close> returns. A character is a code point below
  U+0100.
\<close>

record message =
  headers :: "(string \<times> string) list"
  payload :: "string option"

text \<open>\<^verbatim>\<open>msg[name]\<close>: the first field whose name matches ignoring case, else \<^verbatim>\<open>None\<close>.\<close>

definition msg_getitem :: "message \<Rightarrow> string \<Rightarrow> string option" where
  "msg_getitem m name =
     map_option snd (find (\<lambda>(k, v). str_lower k = str_lower name) (headers m))"

text \<open>\<^verbatim>\<open>name in msg\<close>.\<close>

definition msg_contains :: "message \<Rightarrow> string \<Rightarrow> bool" where
  "msg_contains m name = (str_lower name \<in> set (map (\<lambda>(k, v). str_lower k) (headers m)))"

text \<open>\<^verbatim>\<open>del msg[name]\<close>: every occurrence goes; a missing name is no error.\<close>

definition msg_delitem :: "message \<Rightarrow> string \<Rightarrow> message" where
  "msg_delitem m name =
     m\<lparr>headers := filter (\<lambda>(k, v). str_lower k \<noteq> str_lower name) (headers m)\<rparr>"

text \<open>\<^verbatim>\<open>msg.keys()\<close>: a fresh list of the field names, duplicates included.\<close>

definition msg_keys :: "message \<Rightarrow> string list" where
  "msg_keys m = map fst (headers m)"

text \<open>
  The header registry of the policy: the names whose header class has
  \<^verbatim>\<open>max_count = 1\<close>, and the names whose class is an address header. Every other name
  has \<^verbatim>\<open>max_count = None\<close>.
\<close>

definition unique_headers :: "string list" where
  "unique_headers =
     [''subject'', ''date'', ''orig-date'', ''sender'', ''to'', ''cc'', ''bcc'', ''from'',
      ''reply-to'', ''mime-version'', ''content-type'', ''content-disposition'',
      ''content-transfer-encoding'', ''message-id'']"

definition address_headers :: "string list" where
  "address_headers =
     [''sender'', ''resent-sender'', ''to'', ''resent-to'', ''cc'', ''resent-cc'', ''bcc'',
      ''resent-bcc'', ''from'', ''resent-from'', ''reply-to'']"

definition header_max_count :: "string \<Rightarrow> nat option" where
  "header_max_count name = (if str_lower name \<in> set unique_headers then Some 1 else None)"

text \<open>
  The text of the header object that the policy stores for a value. A header object
  that comes from \<^verbatim>\<open>msg[name]\<close> and is stored under its own name is stored as it
  is; \<^verbatim>\<open>None\<close> becomes \<^verbatim>\<open>'None'\<close> in an address header and the empty string
  elsewhere. For any other string the policy stores the normal form that the header
  class of the name gives it, which the model does not compute: it keeps the string.
\<close>

definition header_factory :: "string \<Rightarrow> string option \<Rightarrow> string" where
  "header_factory name val =
     (case val of
        Some s \<Rightarrow> s
      | None \<Rightarrow> if str_lower name \<in> set address_headers then ''None'' else [])"

text \<open>
  The test \<^verbatim>\<open>len(value.splitlines()) > 1\<close> of the policy: the string holds a line
  boundary (LF, VT, FF, CR, FS, GS, RS, NEL; CR LF counts once) with something after
  it.
\<close>

definition is_linebreak :: "char \<Rightarrow> bool" where
  "is_linebreak c = ((of_char c :: nat) \<in> {10, 11, 12, 13, 28, 29, 30, 133})"

definition multi_line :: "string \<Rightarrow> bool" where
  "multi_line s =
     (case dropWhile (\<lambda>c. \<not> is_linebreak c) s of
        [] \<Rightarrow> False
      | c # rest \<Rightarrow>
          if c = CHR 0x0D \<and> take 1 rest = [CHR 0x0A] then drop 1 rest \<noteq> []
          else rest \<noteq> [])"

text \<open>\<^verbatim>\<open>policy.header_store_parse\<close>: a multi-line string is refused.\<close>

definition header_store_parse :: "string \<Rightarrow> string option \<Rightarrow> exn + string \<times> string" where
  "header_store_parse name val =
     (case val of
        Some s \<Rightarrow> if multi_line s then Inl ValueError else Inr (name, header_factory name val)
      | None \<Rightarrow> Inr (name, header_factory name val))"

text \<open>
  \<^verbatim>\<open>msg[name] = val\<close> appends a field and never overwrites one; it raises
  \<^verbatim>\<open>ValueError\<close> when the message already holds \<^verbatim>\<open>max_count\<close> fields of that name,
  and when the policy refuses the value. The model applies the line test to every
  string; the policy skips it for a header object stored under its own name, which
  holds no CR or LF.
\<close>

definition msg_setitem :: "message \<Rightarrow> string \<Rightarrow> string option \<Rightarrow> exn + message" where
  "msg_setitem m name val =
     (let found = length (filter (\<lambda>(k, v). str_lower k = str_lower name) (headers m)) in
      if (case header_max_count name of
            None \<Rightarrow> False
          | Some max_count \<Rightarrow> max_count \<noteq> 0 \<and> max_count \<le> found)
      then Inl ValueError
      else
        case header_store_parse name val of
          Inl e \<Rightarrow> Inl e
        | Inr field \<Rightarrow> Inr (m\<lparr>headers := headers m @ [field]\<rparr>))"

section \<open>The header rewriter\<close>

record config =
  sender :: string
  recipient :: string

definition headers_to_keep :: "string list" where
  "headers_to_keep =
     [''MIME-Version'', ''Content-Type'', ''Content-Disposition'',
      ''Content-Transfer-Encoding'', ''Date'', ''Subject'']"

text \<open>The loop \<^verbatim>\<open>for header in headers_to_keep\<close> of \<^verbatim>\<open>get_new_message_headers\<close>.\<close>

primrec keep_loop ::
  "message \<Rightarrow> string list \<Rightarrow> (string \<times> string option) list \<Rightarrow> (string \<times> string option) list"
where
  "keep_loop m [] new_headers = new_headers"
| "keep_loop m (header # hs) new_headers =
     keep_loop m hs
       (if msg_contains m header then dict_set new_headers header (msg_getitem m header)
        else new_headers)"

definition get_new_message_headers ::
  "config \<Rightarrow> string \<Rightarrow> message \<Rightarrow> (string \<times> string option) list" where
  "get_new_message_headers cfg ses_recipient m =
     (let new_headers = keep_loop m headers_to_keep [];
          new_headers = dict_set new_headers ''To'' (Some (recipient cfg));
          new_headers =
            (if sender cfg \<noteq> [] then dict_set new_headers ''From'' (Some (sender cfg))
             else dict_set new_headers ''From'' (Some ses_recipient));
          new_headers =
            (if truthy (msg_getitem m ''Reply-To'')
             then dict_set new_headers ''Reply-To'' (msg_getitem m ''Reply-To'')
             else dict_set new_headers ''Reply-To'' (msg_getitem m ''From''))
      in new_headers)"

text \<open>
  \<^verbatim>\<open>set_new_message_headers\<close>: the first loop deletes by every name of the snapshot
  \<^verbatim>\<open>message.keys()\<close>, the second stores the items of the dictionary in its order and
  stops at the first \<^verbatim>\<open>ValueError\<close>.
\<close>

primrec delete_loop :: "string list \<Rightarrow> message \<Rightarrow> message" where
  "delete_loop [] m = m"
| "delete_loop (header # hs) m = delete_loop hs (msg_delitem m header)"

primrec store_loop :: "(string \<times> string option) list \<Rightarrow> message \<Rightarrow> exn + message" where
  "store_loop [] m = Inr m"
| "store_loop (item # items) m =
     (case msg_setitem m (fst item) (snd item) of
        Inl e \<Rightarrow> Inl e
      | Inr m' \<Rightarrow> store_loop items m')"

definition set_new_message_headers ::
  "message \<Rightarrow> (string \<times> string option) list \<Rightarrow> exn + message" where
  "set_new_message_headers m new_headers =
     store_loop new_headers (delete_loop (msg_keys m) m)"

section \<open>The trigger event and the spam gate\<close>

text \<open>
  The event is the notification that SES hands to the function, with the fields the
  forwarder reads: \<^verbatim>\<open>Records[i].ses.mail.messageId\<close>,
  \<^verbatim>\<open>Records[i].ses.receipt.recipients\<close> and the verdict entries of the receipt, each a
  dictionary that may hold a \<^verbatim>\<open>status\<close>. The record list may be empty, and then
  \<^verbatim>\<open>Records[0]\<close> raises \<^verbatim>\<open>IndexError\<close>.
\<close>

record mail_info =
  messageId :: string

record receipt_info =
  recipients :: "string list"
  verdicts :: "string \<Rightarrow> (string \<Rightarrow> string option) option"

record ses_info =
  mail :: mail_info
  receipt :: receipt_info

record ses_record =
  ses :: ses_info

record event =
  Records :: "ses_record list"

definition tracked_verdicts :: "string list" where
  "tracked_verdicts =
     [''spamVerdict'', ''virusVerdict'', ''spfVerdict'', ''dkimVerdict'', ''dmarcVerdict'']"

primrec verdict_loop :: "receipt_info \<Rightarrow> string list \<Rightarrow> bool \<Rightarrow> bool" where
  "verdict_loop rc [] is_fail = is_fail"
| "verdict_loop rc (verdict # vs) is_fail =
     (case verdicts rc verdict of
        None \<Rightarrow> verdict_loop rc vs is_fail
      | Some d \<Rightarrow>
          (let status = d ''status''
           in verdict_loop rc vs (if status = Some ''FAIL'' then True else is_fail)))"

definition is_ses_spam :: "event \<Rightarrow> exn + bool" where
  "is_ses_spam ev =
     (case Records ev of
        [] \<Rightarrow> Inl IndexError
      | r # _ \<Rightarrow> Inr (verdict_loop (receipt (ses r)) tracked_verdicts False))"

definition get_ses_recipients :: "event \<Rightarrow> exn + string list" where
  "get_ses_recipients ev =
     (case Records ev of
        [] \<Rightarrow> Inl IndexError
      | r # _ \<Rightarrow> Inr (recipients (receipt (ses r))))"

section \<open>Configuration, collaborators and the call trace\<close>

text \<open>
  The module-level configuration, read from the process environment when the module is
  loaded, and the two fault-injection variables that \<^verbatim>\<open>forward_mail\<close> reads with
  \<^verbatim>\<open>os.getenv\<close> (\<^verbatim>\<open>None\<close> when unset).
\<close>

record settings =
  REGION :: string
  INCOMING_EMAIL_BUCKET :: string
  INCOMING_EMAIL_PREFIX :: string
  SENDER :: string
  RECIPIENT :: string
  TEST_LARGE_BODY :: "string option"
  TEST_DEBUG_BODY :: "string option"

text \<open>
  What the function does to the outside world is kept as a trace: each entry of
  \<open>forward_mail\<close>, each \<^verbatim>\<open>get_object\<close> call on the object store and each
  \<^verbatim>\<open>send_raw_email\<close> call on the relay, the last two with their arguments and their
  outcome.
\<close>

datatype io =
    ForwardMail string string
  | S3GetObject string string "exn + string"
  | SesSendRawEmail string "string option" "string option list" string "exn + string"

text \<open>
  The collaborators are parameters of the model. The object store and the relay answer
  as a function of the trace so far and of the arguments, so that an answer may differ
  from one call to the next. The MIME parser, the serialiser, the text encoder of the
  content manager (which picks one of the four transfer encodings), the main-type
  reader of a Content-Type value and \<^verbatim>\<open>traceback.format_exc\<close> are functions of
  their argument.
\<close>

datatype cte = Cte7bit | Cte8bit | CteQuotedPrintable | CteBase64

fun cte_name :: "cte \<Rightarrow> string" where
  "cte_name Cte7bit = ''7bit''"
| "cte_name Cte8bit = ''8bit''"
| "cte_name CteQuotedPrintable = ''quoted-printable''"
| "cte_name CteBase64 = ''base64''"

record extern =
  s3_get_object :: "io list \<Rightarrow> string \<Rightarrow> string \<Rightarrow> exn + string"
  parsebytes :: "string \<Rightarrow> exn + message"
  as_string :: "message \<Rightarrow> exn + string"
  ses_send_raw_email ::
    "io list \<Rightarrow> string \<Rightarrow> string option \<Rightarrow> string option list \<Rightarrow> string \<Rightarrow> exn + string"
  encode_text :: "string \<Rightarrow> cte \<times> string"
  maintype_of :: "string \<Rightarrow> string"
  format_exc :: "exn \<Rightarrow> string"

section \<open>Replacing the content of a message\<close>

text \<open>\<^verbatim>\<open>msg.clear_content()\<close>: drops the payload and every \<^verbatim>\<open>Content-*\<close> field.\<close>

definition clear_content :: "message \<Rightarrow> message" where
  "clear_content m =
     m\<lparr>headers := filter (\<lambda>(n, v). take 8 (str_lower n) \<noteq> ''content-'') (headers m),
       payload := None\<rparr>"

definition get_content_maintype :: "extern \<Rightarrow> message \<Rightarrow> string" where
  "get_content_maintype ext m =
     (case msg_getitem m ''Content-Type'' of
        None \<Rightarrow> ''text''
      | Some v \<Rightarrow> maintype_of ext v)"

text \<open>
  \<^verbatim>\<open>msg.set_content(text)\<close> for a string: refused on a multipart message; otherwise
  the content is cleared, and the Content-Type, the encoded payload, the
  Content-Transfer-Encoding and, when missing, the MIME-Version are stored.
\<close>

definition set_content :: "extern \<Rightarrow> message \<Rightarrow> string \<Rightarrow> exn + message" where
  \<open>set_content ext m text =
     (if get_content_maintype ext m = ''multipart'' then Inl TypeError
      else
        case msg_setitem (clear_content m) ''Content-Type''
               (Some ''text/plain; charset="utf-8"'') of
          Inl e \<Rightarrow> Inl e
        | Inr m1 \<Rightarrow>
            (let (cte, data) = encode_text ext text;
                 m2 = m1\<lparr>payload := Some data\<rparr>
             in case msg_setitem m2 ''Content-Transfer-Encoding'' (Some (cte_name cte)) of
                  Inl e \<Rightarrow> Inl e
                | Inr m3 \<Rightarrow>
                    if msg_contains m3 ''MIME-Version'' then Inr m3
                    else msg_setitem m3 ''MIME-Version'' (Some ''1.0'')))\<close>

section \<open>The error notifier\<close>

text \<open>How an f-string renders a value that is \<^verbatim>\<open>None\<close> or a string.\<close>

definition py_format :: "string option \<Rightarrow> string" where
  "py_format v = (case v of None \<Rightarrow> ''None'' | Some s \<Rightarrow> s)"

text \<open>\<^verbatim>\<open>str.strip()\<close>: the white space below U+0100 is what \<^verbatim>\<open>str.isspace\<close> accepts.\<close>

definition is_space :: "char \<Rightarrow> bool" where
  "is_space c = ((of_char c :: nat) \<in> {9, 10, 11, 12, 13, 28, 29, 30, 31, 32, 133, 160})"

definition strip :: "string \<Rightarrow> string" where
  "strip s = dropWhile is_space (rev (dropWhile is_space (rev s)))"

definition error_text :: "message \<Rightarrow> string \<Rightarrow> string" where
  "error_text attempted_message traceback_string =
     strip
       ([CHR 0x0A] @ ''There was an error forwarding an email to SES.'' @ [CHR 0x0A, CHR 0x0A] @
        ''Original Sender: '' @ py_format (msg_getitem attempted_message ''Reply-To'') @
        [CHR 0x0A] @
        ''Original Subject: '' @ py_format (msg_getitem attempted_message ''Subject'') @
        [CHR 0x0A, CHR 0x0A] @
        ''Traceback:'' @ [CHR 0x0A, CHR 0x0A] @
        traceback_string @ [CHR 0x0A] @ ''        '')"

definition create_error_email :: "extern \<Rightarrow> message \<Rightarrow> string \<Rightarrow> exn + message" where
  "create_error_email ext attempted_message traceback_string =
     (let new_message = \<lparr>headers = [], payload = None\<rparr> in
      case msg_setitem new_message ''From'' (msg_getitem attempted_message ''From'') of
        Inl e \<Rightarrow> Inl e
      | Inr new_message \<Rightarrow>
          (case msg_setitem new_message ''To'' (msg_getitem attempted_message ''To'') of
             Inl e \<Rightarrow> Inl e
           | Inr new_message \<Rightarrow>
               (case msg_setitem new_message ''Subject'' (Some ''Email forwarding error'') of
                  Inl e \<Rightarrow> Inl e
                | Inr new_message \<Rightarrow>
                    set_content ext new_message
                      (error_text attempted_message traceback_string))))"

section \<open>The dispatcher\<close>

definition parse_message_from_bytes :: "extern \<Rightarrow> string \<Rightarrow> exn + message" where
  "parse_message_from_bytes ext raw_bytes = parsebytes ext raw_bytes"

definition get_message_from_s3 ::
  "settings \<Rightarrow> extern \<Rightarrow> string \<Rightarrow> io list \<Rightarrow> (exn + message) \<times> io list" where
  "get_message_from_s3 st ext message_id tr =
     (let object_path =
            (if INCOMING_EMAIL_PREFIX st \<noteq> [] then INCOMING_EMAIL_PREFIX st @ ''/'' @ message_id
             else message_id);
          object_s3 = s3_get_object ext tr (INCOMING_EMAIL_BUCKET st) object_path;
          tr' = tr @ [S3GetObject (INCOMING_EMAIL_BUCKET st) object_path object_s3]
      in case object_s3 of
           Inl e \<Rightarrow> (Inl e, tr')
         | Inr raw_bytes \<Rightarrow> (parse_message_from_bytes ext raw_bytes, tr'))"

definition send_raw_email ::
  "settings \<Rightarrow> extern \<Rightarrow> message \<Rightarrow> io list \<Rightarrow> (exn + unit) \<times> io list" where
  "send_raw_email st ext m tr =
     (case as_string ext m of
        Inl e \<Rightarrow> (Inl e, tr)
      | Inr data \<Rightarrow>
          (let response =
                 ses_send_raw_email ext tr (REGION st) (msg_getitem m ''From'')
                   [msg_getitem m ''To''] data;
               tr' = tr @ [SesSendRawEmail (REGION st) (msg_getitem m ''From'')
                             [msg_getitem m ''To''] data response]
           in case response of
                Inl e \<Rightarrow> (Inl e, tr')
              | Inr message_id \<Rightarrow> (Inr (), tr')))"

definition huge_body :: string where
  "huge_body = replicate 20000000 (CHR ''x'')"

definition forward_mail ::
  "settings \<Rightarrow> extern \<Rightarrow> string \<Rightarrow> string \<Rightarrow> io list \<Rightarrow> (exn + unit) \<times> io list" where
  "forward_mail st ext ses_recipient message_id tr =
     (case get_message_from_s3 st ext message_id (tr @ [ForwardMail ses_recipient message_id]) of
        (Inl e, tr1) \<Rightarrow> (Inl e, tr1)
      | (Inr message, tr1) \<Rightarrow>
          (let cfg = \<lparr>sender = SENDER st, recipient = RECIPIENT st\<rparr>;
               new_headers = get_new_message_headers cfg ses_recipient message
           in case set_new_message_headers message new_headers of
                Inl e \<Rightarrow> (Inl e, tr1)
              | Inr message \<Rightarrow>
                  (case (if truthy (TEST_LARGE_BODY st)
                         then set_content ext (clear_content message) huge_body
                         else Inr message) of
                     Inl e \<Rightarrow> (Inl e, tr1)
                   | Inr message \<Rightarrow>
                       (case (if truthy (TEST_DEBUG_BODY st) then as_string ext message
                              else Inr []) of
                          Inl e \<Rightarrow> (Inl e, tr1)
                        | Inr _ \<Rightarrow>
                            (case send_raw_email st ext message tr1 of
                               (Inr u, tr2) \<Rightarrow> (Inr u, tr2)
                             | (Inl e, tr2) \<Rightarrow>
                                 (case e of
                                    ClientError c \<Rightarrow>
                                      (case create_error_email ext message (format_exc ext e) of
                                         Inl e' \<Rightarrow> (Inl e', tr2)
                                       | Inr error_message \<Rightarrow>
                                           send_raw_email st ext error_message tr2)
                                  | _ \<Rightarrow> (Inl e, tr2)))))))"

text \<open>The loop \<^verbatim>\<open>for ses_recipient in ses_recipients\<close> of \<^verbatim>\<open>lambda_handler\<close>.\<close>

primrec forward_loop ::
  "settings \<Rightarrow> extern \<Rightarrow> string list \<Rightarrow> string \<Rightarrow> io list \<Rightarrow> (exn + unit) \<times> io list" where
  "forward_loop st ext [] message_id tr = (Inr (), tr)"
| "forward_loop st ext (ses_recipient # rest) message_id tr =
     (case forward_mail st ext ses_recipient message_id tr of
        (Inl e, tr') \<Rightarrow> (Inl e, tr')
      | (Inr _, tr') \<Rightarrow> forward_loop st ext rest message_id tr')"

definition lambda_handler ::
  "settings \<Rightarrow> extern \<Rightarrow> event \<Rightarrow> io list \<Rightarrow> (exn + unit) \<times> io list" where
  "lambda_handler st ext ev tr =
     (case Records ev of
        [] \<Rightarrow> (Inl IndexError, tr)
      | r # _ \<Rightarrow>
          (let message_id = messageId (mail (ses r)) in
           case is_ses_spam ev of
             Inl e \<Rightarrow> (Inl e, tr)
           | Inr True \<Rightarrow> (Inr (), tr)
           | Inr False \<Rightarrow>
               (case get_ses_recipients ev of
                  Inl e \<Rightarrow> (Inl e, tr)
                | Inr ses_recipients \<Rightarrow> forward_loop st ext ses_recipients message_id tr)))"

text \<open>The recipients and message ids of the forwarding attempts in a trace.\<close>

fun attempts :: "io list \<Rightarrow> (string \<times> string) list" where
  "attempts [] = []"
| "attempts (ForwardMail r mid # tr) = (r, mid) # attempts tr"
| "attempts (_ # tr) = attempts tr"


section \<open>Sample inputs\<close>

text \<open>Concrete messages and configurations on which the results below are evaluated.\<close>

definition forged_message :: message where
  "forged_message =
     \<lparr>headers = [(''Received'', ''from mail.example.net''),
                 (''To'', ''a@x.com, b@y.com, code@coder.dev''),
                 (''to'', ''forged@evil.example''),
                 (''From'', ''Alpha Sigma <user@users.com>''),
                 (''Subject'', ''test 3 addresses''),
                 (''Date'', ''Mon, 1 Jan 2024 10:00:00 +0000''),
                 (''X-Mailer'', ''none''),
                 (''MIME-Version'', ''1.0'')],
      payload = Some ''hello''\<rparr>"

definition test_config :: config where
  "test_config = \<lparr>sender = [], recipient = ''someone@secret.com''\<rparr>"

definition self_addressed_message :: message where
  "self_addressed_message =
     \<lparr>headers = [(''From'', ''code@coder.dev''), (''To'', ''code@coder.dev''),
                 (''Subject'', ''note to self'')],
      payload = Some ''hello''\<rparr>"


definition default_settings :: settings where
  "default_settings =
     \<lparr>REGION = ''us-east-1'', INCOMING_EMAIL_BUCKET = ''yourbucketname'',
      INCOMING_EMAIL_PREFIX = [], SENDER = [], RECIPIENT = ''to@anywhere.com'',
      TEST_LARGE_BODY = None, TEST_DEBUG_BODY = None\<rparr>"

fun is_get :: "io \<Rightarrow> bool" where
  "is_get (S3GetObject _ _ _) = True"
| "is_get _ = False"

definition reliable_extern :: extern where
  "reliable_extern =
     \<lparr>s3_get_object = (\<lambda>tr bucket key. Inr ''raw''),
      parsebytes = (\<lambda>raw. Inr forged_message),
      as_string = (\<lambda>m. Inr (py_format (msg_getitem m ''Subject''))),
      ses_send_raw_email = (\<lambda>tr region source destinations data. Inr ''0001''),
      encode_text = (\<lambda>text. (Cte7bit, text)),
      maintype_of = (\<lambda>v. takeWhile (\<lambda>c. c \<noteq> CHR ''/'') v),
      format_exc = (\<lambda>e. ''Traceback (most recent call last)'')\<rparr>"

definition flaky_store_extern :: extern where
  "flaky_store_extern =
     reliable_extern
       \<lparr>s3_get_object := (\<lambda>tr bucket key.
           if filter is_get tr = [] then Inl (ClientError ''SlowDown'') else Inr ''raw'')\<rparr>"

definition second_get_fails_extern :: extern where
  "second_get_fails_extern =
     reliable_extern
       \<lparr>s3_get_object := (\<lambda>tr bucket key.
           if filter is_get tr = [] then Inr ''raw'' else Inl (ClientError ''SlowDown''))\<rparr>"



definition first_record :: ses_record where
  "first_record =
     \<lparr>ses = \<lparr>mail = \<lparr>messageId = ''m1''\<rparr>,
             receipt = \<lparr>recipients = [''code@coder.dev'', ''code2@coder.dev''],
                        verdicts = [''spamVerdict'' \<mapsto> [''status'' \<mapsto> ''PASS''],
                                    ''virusVerdict'' \<mapsto> [''status'' \<mapsto> ''PASS'']]\<rparr>\<rparr>\<rparr>"

definition second_record :: ses_record where
  "second_record =
     \<lparr>ses = \<lparr>mail = \<lparr>messageId = ''m2''\<rparr>,
             receipt = \<lparr>recipients = [''other@coder.dev''],
                        verdicts = [''spamVerdict'' \<mapsto> [''status'' \<mapsto> ''FAIL'']]\<rparr>\<rparr>\<rparr>"

definition sample_event :: event where
  "sample_event = \<lparr>Records = [first_record, second_record]\<rparr>"


section \<open>Facts about dictionaries and header lookup\<close>

lemma bit_one_nat: "bit (Suc 0) 0"
  by (simp add: bit_0)

lemmas lower_eval = str_lower_def lower_char_def char_of_def bit_one_nat

lemma dict_get_dict_set:
  "dict_get (dict_set d k v) k' = (if k' = k then Some v else dict_get d k')"
  by (induction d) (auto simp: dict_get_def)

lemma dict_get_Nil: "dict_get [] k = None"
  by (simp add: dict_get_def)

lemma keep_loop_get:
  "dict_get (keep_loop m hs d) k =
     (if k \<in> set hs \<and> msg_contains m k then Some (msg_getitem m k) else dict_get d k)"
  by (induction hs arbitrary: d) (auto simp: dict_get_dict_set)

lemma msg_contains_getitem: "msg_contains m h \<longleftrightarrow> msg_getitem m h \<noteq> None"
  by (force simp: msg_contains_def msg_getitem_def find_None_iff)

lemma verdict_loop_iff:
  "verdict_loop rc vs b \<longleftrightarrow>
     b \<or> (\<exists>v \<in> set vs. \<exists>d. verdicts rc v = Some d \<and> d ''status'' = Some ''FAIL'')"
  by (induction vs arbitrary: b) (auto split: option.splits)














section \<open>Facts about the dispatcher\<close>

lemma attempts_append: "attempts (xs @ ys) = attempts xs @ attempts ys"
  by (induction xs rule: attempts.induct) auto

lemma get_message_from_s3_attempts:
  "get_message_from_s3 st ext mid tr = (res, tr') \<Longrightarrow> attempts tr' = attempts tr"
  by (auto simp: get_message_from_s3_def Let_def attempts_append split: sum.splits)

lemma send_raw_email_attempts:
  "send_raw_email st ext m tr = (res, tr') \<Longrightarrow> attempts tr' = attempts tr"
  by (auto simp: send_raw_email_def Let_def attempts_append split: sum.splits)

lemma forward_mail_attempts:
  assumes "forward_mail st ext r mid tr = (res, tr')"
  shows "attempts tr' = attempts tr @ [(r, mid)]"
proof -
  obtain a tr1 where g: "get_message_from_s3 st ext mid (tr @ [ForwardMail r mid]) = (a, tr1)"
    by force
  have t1: "attempts tr1 = attempts tr @ [(r, mid)]"
    using get_message_from_s3_attempts [OF g] by (simp add: attempts_append)
  show ?thesis
    using assms g t1 unfolding forward_mail_def Let_def
    by (auto split: sum.splits exn.splits prod.splits if_splits
        dest!: send_raw_email_attempts)
qed

lemma forward_loop_attempts:
  "forward_loop st ext rs mid tr = (res, tr') \<Longrightarrow>
   \<exists>n \<le> length rs.
      attempts tr' = attempts tr @ map (\<lambda>x. (x, mid)) (take n rs) \<and>
      (res = Inr () \<longrightarrow> n = length rs) \<and>
      (\<forall>e. res = Inl e \<longrightarrow>
         0 < n \<and> (\<exists>tr0. forward_mail st ext (rs ! (n - 1)) mid tr0 = (Inl e, tr')))"
proof (induction rs arbitrary: tr)
  case Nil
  then show ?case by auto
next
  case (Cons r rs)
  obtain a tr1 where f: "forward_mail st ext r mid tr = (a, tr1)"
    by force
  have t1: "attempts tr1 = attempts tr @ [(r, mid)]"
    using f by (rule forward_mail_attempts)
  show ?case
  proof (cases a)
    case (Inl e)
    with Cons.prems f have "res = Inl e" "tr' = tr1" by auto
    with f t1 Inl show ?thesis
      by (intro exI [of _ 1]) auto
  next
    case (Inr u)
    with Cons.prems f have "forward_loop st ext rs mid tr1 = (res, tr')" by simp
    from Cons.IH [OF this] obtain n where n: "n \<le> length rs"
      "attempts tr' = attempts tr1 @ map (\<lambda>x. (x, mid)) (take n rs)"
      "res = Inr () \<longrightarrow> n = length rs"
      "\<forall>e. res = Inl e \<longrightarrow>
         0 < n \<and> (\<exists>tr0. forward_mail st ext (rs ! (n - 1)) mid tr0 = (Inl e, tr'))"
      by blast
    show ?thesis
    proof (intro exI [of _ "Suc n"] conjI)
      show "Suc n \<le> length (r # rs)" using n(1) by simp
      show "attempts tr' = attempts tr @ map (\<lambda>x. (x, mid)) (take (Suc n) (r # rs))"
        using n(2) t1 by simp
      show "res = Inr () \<longrightarrow> Suc n = length (r # rs)" using n(3) by simp
      show "\<forall>e. res = Inl e \<longrightarrow>
         0 < Suc n \<and> (\<exists>tr0. forward_mail st ext ((r # rs) ! (Suc n - 1)) mid tr0 = (Inl e, tr'))"
      proof (intro allI impI conjI)
        fix e assume e: "res = Inl e"
        show "0 < Suc n" by simp
        from n(4) e have "0 < n" and
          ex: "\<exists>tr0. forward_mail st ext (rs ! (n - 1)) mid tr0 = (Inl e, tr')" by auto
        then have "(r # rs) ! (Suc n - 1) = rs ! (n - 1)"
          by (cases n) auto
        with ex show "\<exists>tr0. forward_mail st ext ((r # rs) ! (Suc n - 1)) mid tr0 = (Inl e, tr')"
          by simp
      qed
    qed
  qed
qed

lemma forward_loop_chain:
  "length ts = Suc (length pre) \<Longrightarrow> ts ! 0 = tr \<Longrightarrow>
   (\<forall>i < length pre. forward_mail st ext (pre ! i) mid (ts ! i) = (Inr (), ts ! Suc i)) \<Longrightarrow>
   forward_loop st ext (pre @ post) mid tr = forward_loop st ext post mid (last ts) \<and>
   attempts (last ts) = attempts tr @ map (\<lambda>x. (x, mid)) pre"
proof (induction pre arbitrary: ts tr)
  case Nil
  then have "ts = [tr]"
    by (cases ts) auto
  then show ?case by simp
next
  case (Cons p ps)
  from Cons.prems(1,2) obtain rest where ts: "ts = tr # rest" and len: "length rest = Suc (length ps)"
    by (cases ts) auto
  from Cons.prems(3) [rule_format, of 0] ts
  have first: "forward_mail st ext p mid tr = (Inr (), rest ! 0)"
    by simp
  have step: "\<forall>i < length ps. forward_mail st ext (ps ! i) mid (rest ! i) = (Inr (), rest ! Suc i)"
  proof (intro allI impI)
    fix i assume "i < length ps"
    with Cons.prems(3) [rule_format, of "Suc i"] ts
    show "forward_mail st ext (ps ! i) mid (rest ! i) = (Inr (), rest ! Suc i)"
      by simp
  qed
  from Cons.IH [OF len refl step] have
    ih: "forward_loop st ext (ps @ post) mid (rest ! 0) = forward_loop st ext post mid (last rest)"
      "attempts (last rest) = attempts (rest ! 0) @ map (\<lambda>x. (x, mid)) ps"
    by simp_all
  from len have ne: "rest \<noteq> []" by auto
  then have last: "last ts = last rest"
    using ts by simp
  show ?case
    using first ih last forward_mail_attempts [OF first]
    by simp
qed

lemma forward_loop_chain_exists:
  "\<exists>pre post ts.
      rs = pre @ post \<and> length ts = Suc (length pre) \<and> ts ! 0 = tr \<and>
      (\<forall>i < length pre. forward_mail st ext (pre ! i) mid (ts ! i) = (Inr (), ts ! Suc i)) \<and>
      (post = [] \<or>
       (\<exists>x post' e tr_e. post = x # post' \<and>
          forward_mail st ext x mid (last ts) = (Inl e, tr_e)))"
proof (induction rs arbitrary: tr)
  case Nil
  show ?case
    by (rule exI [of _ "[]"], rule exI [of _ "[]"], rule exI [of _ "[tr]"]) simp
next
  case (Cons r rs)
  obtain a tr_a where f: "forward_mail st ext r mid tr = (a, tr_a)"
    by force
  show ?case
  proof (cases a)
    case (Inl e)
    with f show ?thesis
      by (intro exI [of _ "[]"] exI [of _ "r # rs"] exI [of _ "[tr]"]) simp
  next
    case (Inr u)
    from Cons.IH [of tr_a] obtain pre post ts where ih:
      "rs = pre @ post" "length ts = Suc (length pre)" "ts ! 0 = tr_a"
      "\<forall>i < length pre. forward_mail st ext (pre ! i) mid (ts ! i) = (Inr (), ts ! Suc i)"
      "post = [] \<or>
       (\<exists>x post' e tr_e. post = x # post' \<and>
          forward_mail st ext x mid (last ts) = (Inl e, tr_e))"
      by blast
    from ih(2) have ne: "ts \<noteq> []" by auto
    have chain: "\<forall>i < length (r # pre).
        forward_mail st ext ((r # pre) ! i) mid ((tr # ts) ! i) = (Inr (), (tr # ts) ! Suc i)"
    proof (intro allI impI)
      fix i assume i: "i < length (r # pre)"
      show "forward_mail st ext ((r # pre) ! i) mid ((tr # ts) ! i) = (Inr (), (tr # ts) ! Suc i)"
      proof (cases i)
        case 0
        with f Inr ih(3) show ?thesis by simp
      next
        case (Suc j)
        with i ih(4) show ?thesis by simp
      qed
    qed
    show ?thesis
      using ih(1,2,5) chain ne
      by (intro exI [of _ "r # pre"] exI [of _ post] exI [of _ "tr # ts"]) simp
  qed
qed

















lemmas eval_defs =
  forward_mail_def get_message_from_s3_def parse_message_from_bytes_def send_raw_email_def
  set_new_message_headers_def get_new_message_headers_def msg_keys_def msg_delitem_def
  msg_setitem_def msg_getitem_def msg_contains_def header_max_count_def header_factory_def
  unique_headers_def address_headers_def headers_to_keep_def truthy_def py_format_def
  create_error_email_def set_content_def clear_content_def get_content_maintype_def
  header_store_parse_def multi_line_def is_linebreak_def lower_eval Let_def

section \<open>The spam gate\<close>

text \<open>
  Claim C3. Whatever the event holds beside its first record, the spam gate answers
  true exactly when one of the five tracked verdicts is present in the receipt of that
  record with a status equal to \<^verbatim>\<open>FAIL\<close>. A tracked verdict that is missing, that has
  no status, or whose status is another string, does not reject.
\<close>

theorem is_ses_spam_iff_fail:
  "is_ses_spam (ev\<lparr>Records := r # rs\<rparr>) =
     Inr (\<exists>v \<in> set tracked_verdicts. \<exists>d.
            verdicts (receipt (ses r)) v = Some d \<and> d ''status'' = Some ''FAIL'')"
  by (simp add: is_ses_spam_def verdict_loop_iff)

theorem is_ses_spam_iff_fail_witness:
  "is_ses_spam
     \<lparr>Records =
        [\<lparr>ses = \<lparr>mail = \<lparr>messageId = ''m1''\<rparr>,
                 receipt = \<lparr>recipients = [''code@coder.dev''],
                            verdicts = [''spamVerdict'' \<mapsto> [''status'' \<mapsto> ''PASS''],
                                        ''dkimVerdict'' \<mapsto> [''status'' \<mapsto> ''FAIL'']]\<rparr>\<rparr>\<rparr>]\<rparr>
     = Inr True
   \<and> is_ses_spam
     \<lparr>Records =
        [\<lparr>ses = \<lparr>mail = \<lparr>messageId = ''m1''\<rparr>,
                 receipt = \<lparr>recipients = [''code@coder.dev''],
                            verdicts = [''spamVerdict'' \<mapsto> [''status'' \<mapsto> ''PASS''],
                                        ''virusVerdict'' \<mapsto> [''state'' \<mapsto> ''FAIL''],
                                        ''dkimVerdict'' \<mapsto> [''status'' \<mapsto> ''GRAY'']]\<rparr>\<rparr>\<rparr>]\<rparr>
     = Inr False"
  using
    is_ses_spam_iff_fail [where ev = "\<lparr>Records = []\<rparr>" and rs = "[]" and r =
      "\<lparr>ses = \<lparr>mail = \<lparr>messageId = ''m1''\<rparr>,
              receipt = \<lparr>recipients = [''code@coder.dev''],
                         verdicts = [''spamVerdict'' \<mapsto> [''status'' \<mapsto> ''PASS''],
                                     ''dkimVerdict'' \<mapsto> [''status'' \<mapsto> ''FAIL'']]\<rparr>\<rparr>\<rparr>"]
    is_ses_spam_iff_fail [where ev = "\<lparr>Records = []\<rparr>" and rs = "[]" and r =
      "\<lparr>ses = \<lparr>mail = \<lparr>messageId = ''m1''\<rparr>,
              receipt = \<lparr>recipients = [''code@coder.dev''],
                         verdicts = [''spamVerdict'' \<mapsto> [''status'' \<mapsto> ''PASS''],
                                     ''virusVerdict'' \<mapsto> [''state'' \<mapsto> ''FAIL''],
                                     ''dkimVerdict'' \<mapsto> [''status'' \<mapsto> ''GRAY'']]\<rparr>\<rparr>\<rparr>"]
  by (simp add: tracked_verdicts_def)

section \<open>The computed headers\<close>

text \<open>
  Claim C5. The computed Reply-To is the Reply-To of the original message when that
  header is present with a non-empty value, and the From of the original message
  otherwise.
\<close>

theorem reply_to_rule:
  "dict_get (get_new_message_headers cfg ses_recipient m) ''Reply-To'' =
     Some (if \<exists>v. msg_getitem m ''Reply-To'' = Some v \<and> v \<noteq> []
           then msg_getitem m ''Reply-To'' else msg_getitem m ''From'')"
  by (auto simp add: get_new_message_headers_def Let_def dict_get_dict_set truthy_def
      split: option.splits)

theorem reply_to_rule_witness:
  "dict_get
     (get_new_message_headers \<lparr>sender = [], recipient = ''someone@secret.com''\<rparr> ''code@coder.dev''
        \<lparr>headers = [(''From'', ''Alpha Sigma <user@users.com>''),
                    (''Reply-To'', ''My Alias <alias@alias.com>''),
                    (''Subject'', ''test reply-to'')], payload = Some ''hello''\<rparr>)
     ''Reply-To'' = Some (Some ''My Alias <alias@alias.com>'')
   \<and> dict_get
     (get_new_message_headers \<lparr>sender = [], recipient = ''someone@secret.com''\<rparr> ''code@coder.dev''
        \<lparr>headers = [(''From'', ''Alpha Sigma <user@users.com>''),
                    (''reply-to'', []),
                    (''Subject'', ''test 3 addresses'')], payload = Some ''hello''\<rparr>)
     ''Reply-To'' = Some (Some ''Alpha Sigma <user@users.com>'')"
  using
    reply_to_rule [where cfg = "\<lparr>sender = [], recipient = ''someone@secret.com''\<rparr>"
        and ses_recipient = "''code@coder.dev''" and m =
      "\<lparr>headers = [(''From'', ''Alpha Sigma <user@users.com>''),
                    (''Reply-To'', ''My Alias <alias@alias.com>''),
                    (''Subject'', ''test reply-to'')], payload = Some ''hello''\<rparr>"]
    reply_to_rule [where cfg = "\<lparr>sender = [], recipient = ''someone@secret.com''\<rparr>"
        and ses_recipient = "''code@coder.dev''" and m =
      "\<lparr>headers = [(''From'', ''Alpha Sigma <user@users.com>''),
                    (''reply-to'', []),
                    (''Subject'', ''test 3 addresses'')], payload = Some ''hello''\<rparr>"]
  by (simp add: msg_getitem_def lower_eval)

text \<open>
  Claim C6. For each name of the allow-list: when the original message has the header,
  the computed headers hold it with the value that the message gives for it; when the
  message lacks it, the computed headers have no entry of that name.
\<close>

theorem kept_headers_rule:
  "h \<in> set headers_to_keep \<Longrightarrow>
   (msg_contains m h \<longrightarrow>
      msg_getitem m h \<noteq> None \<and>
      dict_get (get_new_message_headers cfg ses_recipient m) h = Some (msg_getitem m h)) \<and>
   (\<not> msg_contains m h \<longrightarrow>
      dict_get (get_new_message_headers cfg ses_recipient m) h = None)"
proof -
  assume h: "h \<in> set headers_to_keep"
  then have ne: "h \<noteq> ''To''" "h \<noteq> ''From''" "h \<noteq> ''Reply-To''"
    by (auto simp: headers_to_keep_def)
  have "dict_get (get_new_message_headers cfg ses_recipient m) h =
          (if msg_contains m h then Some (msg_getitem m h) else None)"
    using h ne
    by (simp add: get_new_message_headers_def Let_def dict_get_dict_set keep_loop_get
        dict_get_Nil)
  then show ?thesis
    by (simp add: msg_contains_getitem)
qed

theorem kept_headers_rule_witness:
  "''Subject'' \<in> set headers_to_keep \<and> ''Content-Disposition'' \<in> set headers_to_keep
   \<and> dict_get
     (get_new_message_headers \<lparr>sender = [], recipient = ''someone@secret.com''\<rparr> ''code@coder.dev''
        \<lparr>headers = [(''From'', ''Alpha Sigma <user@users.com>''),
                    (''subject'', ''test 3 addresses''),
                    (''X-Mailer'', ''none'')], payload = Some ''hello''\<rparr>)
     ''Subject'' = Some (Some ''test 3 addresses'')
   \<and> dict_get
     (get_new_message_headers \<lparr>sender = [], recipient = ''someone@secret.com''\<rparr> ''code@coder.dev''
        \<lparr>headers = [(''From'', ''Alpha Sigma <user@users.com>''),
                    (''subject'', ''test 3 addresses''),
                    (''X-Mailer'', ''none'')], payload = Some ''hello''\<rparr>)
     ''Content-Disposition'' = None"
proof -
  have a: "''Subject'' \<in> set headers_to_keep" and b: "''Content-Disposition'' \<in> set headers_to_keep"
    by (simp_all add: headers_to_keep_def)
  show ?thesis
    using a b
      kept_headers_rule [OF a, where m = "\<lparr>headers = [(''From'', ''Alpha Sigma <user@users.com>''),
                    (''subject'', ''test 3 addresses''),
                    (''X-Mailer'', ''none'')], payload = Some ''hello''\<rparr>"
        and cfg = "\<lparr>sender = [], recipient = ''someone@secret.com''\<rparr>"
        and ses_recipient = "''code@coder.dev''"]
      kept_headers_rule [OF b, where m = "\<lparr>headers = [(''From'', ''Alpha Sigma <user@users.com>''),
                    (''subject'', ''test 3 addresses''),
                    (''X-Mailer'', ''none'')], payload = Some ''hello''\<rparr>"
        and cfg = "\<lparr>sender = [], recipient = ''someone@secret.com''\<rparr>"
        and ses_recipient = "''code@coder.dev''"]
    by (simp add: msg_getitem_def msg_contains_def lower_eval)
qed

text \<open>
  Claim C7, as amended. The computed From is the configured sender when that is a
  non-empty string and the effective recipient otherwise; it is the same for every
  original message, so it is never read from the From header of the message.
\<close>

theorem from_rule:
  "dict_get (get_new_message_headers cfg ses_recipient m) ''From'' =
     Some (Some (if sender cfg \<noteq> [] then sender cfg else ses_recipient))
   \<and> dict_get (get_new_message_headers cfg ses_recipient m') ''From'' =
     dict_get (get_new_message_headers cfg ses_recipient m) ''From''"
  by (simp add: get_new_message_headers_def Let_def dict_get_dict_set)

theorem from_rule_witness:
  "dict_get (get_new_message_headers test_config ''code@coder.dev'' forged_message) ''From'' =
     Some (Some ''code@coder.dev'')
   \<and> dict_get (get_new_message_headers \<lparr>sender = ''fixed@coder.dev'',
          recipient = ''someone@secret.com''\<rparr> ''code@coder.dev'' forged_message) ''From'' =
     Some (Some ''fixed@coder.dev'')"
  using from_rule [where cfg = test_config and ses_recipient = "''code@coder.dev''"
      and m = forged_message and m' = forged_message]
    from_rule [where cfg = "\<lparr>sender = ''fixed@coder.dev'', recipient = ''someone@secret.com''\<rparr>"
      and ses_recipient = "''code@coder.dev''" and m = forged_message and m' = forged_message]
  by (simp add: test_config_def)

text \<open>
  The computed From can still coincide with the original From: a message whose From
  header is the effective recipient itself is forwarded with that same address.
\<close>

theorem from_equals_original_counterexample:
  "msg_getitem self_addressed_message ''From'' = Some ''code@coder.dev''
   \<and> dict_get (get_new_message_headers test_config ''code@coder.dev'' self_addressed_message)
        ''From'' = Some (msg_getitem self_addressed_message ''From'')"
  by (simp add: get_new_message_headers_def Let_def dict_get_dict_set test_config_def
      self_addressed_message_def msg_getitem_def lower_eval)

text \<open>
  Claim C8. The computed To is the configured recipient, for every configuration,
  every effective recipient and every original message, whatever its To header holds.
\<close>

theorem to_is_config_recipient:
  "dict_get (get_new_message_headers cfg ses_recipient m) ''To'' = Some (Some (recipient cfg))"
  by (simp add: get_new_message_headers_def Let_def dict_get_dict_set)

theorem to_is_config_recipient_witness:
  "dict_get
     (get_new_message_headers \<lparr>sender = [], recipient = ''someone@secret.com''\<rparr> ''code@coder.dev''
        \<lparr>headers = [(''To'', ''a@x.com, b@y.com, code@coder.dev''), (''to'', ''z@z.com'')],
          payload = None\<rparr>)
     ''To'' = Some (Some ''someone@secret.com'')"
  using to_is_config_recipient [where cfg = "\<lparr>sender = [], recipient = ''someone@secret.com''\<rparr>"
      and ses_recipient = "''code@coder.dev''" and m =
      "\<lparr>headers = [(''To'', ''a@x.com, b@y.com, code@coder.dev''), (''to'', ''z@z.com'')],
          payload = None\<rparr>"]
  by simp




section \<open>The handler and the forwarding attempt\<close>

text \<open>
  Claim C1, as amended. For an event that passes the spam gate, the handler makes its
  forwarding attempts for the verified recipients of the first record in list order,
  each attempt starting from the trace that the previous one left when it returned
  normally. Take any first part of the recipient list whose attempts all return
  normally in that way: the attempts made so far are exactly those recipients. If it
  is the whole list, the handler returns normally, and every recipient has had an
  attempt. If the attempt for the next recipient raises, the handler raises that
  error at once, with the trace of the raising attempt, and the recipients after it
  get no attempt. Every run is of one of these two kinds.
\<close>

theorem lambda_handler_attempts:
  assumes "Records ev = r # rest"
    and "is_ses_spam ev = Inr False"
  shows
    "(\<forall>pre post ts.
        recipients (receipt (ses r)) = pre @ post \<and> length ts = Suc (length pre) \<and>
        ts ! 0 = tr \<and>
        (\<forall>i < length pre.
           forward_mail st ext (pre ! i) (messageId (mail (ses r))) (ts ! i) =
             (Inr (), ts ! Suc i)) \<longrightarrow>
        attempts (last ts) = attempts tr @ map (\<lambda>x. (x, messageId (mail (ses r)))) pre \<and>
        (post = [] \<longrightarrow> lambda_handler st ext ev tr = (Inr (), last ts)) \<and>
        (\<forall>x post' e tr_e.
           post = x # post' \<and>
           forward_mail st ext x (messageId (mail (ses r))) (last ts) = (Inl e, tr_e) \<longrightarrow>
           lambda_handler st ext ev tr = (Inl e, tr_e) \<and>
           attempts tr_e =
             attempts tr @ map (\<lambda>x. (x, messageId (mail (ses r)))) (pre @ [x])))
     \<and> (\<exists>pre post ts.
          recipients (receipt (ses r)) = pre @ post \<and> length ts = Suc (length pre) \<and>
          ts ! 0 = tr \<and>
          (\<forall>i < length pre.
             forward_mail st ext (pre ! i) (messageId (mail (ses r))) (ts ! i) =
               (Inr (), ts ! Suc i)) \<and>
          (post = [] \<or>
           (\<exists>x post' e tr_e.
              post = x # post' \<and>
              forward_mail st ext x (messageId (mail (ses r))) (last ts) = (Inl e, tr_e))))"
proof (intro conjI allI impI)
  let ?rs = "recipients (receipt (ses r))" and ?mid = "messageId (mail (ses r))"
  have handler: "lambda_handler st ext ev tr = forward_loop st ext ?rs ?mid tr"
    using assms by (simp add: lambda_handler_def get_ses_recipients_def)
  fix pre post ts
  assume h: "?rs = pre @ post \<and> length ts = Suc (length pre) \<and> ts ! 0 = tr \<and>
        (\<forall>i < length pre. forward_mail st ext (pre ! i) ?mid (ts ! i) = (Inr (), ts ! Suc i))"
  then have chain:
    "forward_loop st ext (pre @ post) ?mid tr = forward_loop st ext post ?mid (last ts)"
    "attempts (last ts) = attempts tr @ map (\<lambda>x. (x, ?mid)) pre"
    using forward_loop_chain [of ts pre tr st ext ?mid post] by simp_all
  show "attempts (last ts) = attempts tr @ map (\<lambda>x. (x, ?mid)) pre"
    by (rule chain(2))
  show "lambda_handler st ext ev tr = (Inr (), last ts)" if "post = []"
    using that h chain(1) handler by simp
  fix x post' e tr_e
  assume n: "post = x # post' \<and> forward_mail st ext x ?mid (last ts) = (Inl e, tr_e)"
  then show "lambda_handler st ext ev tr = (Inl e, tr_e)"
    using h chain(1) handler by simp
  from n have "attempts tr_e = attempts (last ts) @ [(x, ?mid)]"
    by (intro forward_mail_attempts [of st ext x ?mid "last ts" "Inl e"]) simp
  then show "attempts tr_e = attempts tr @ map (\<lambda>x. (x, ?mid)) (pre @ [x])"
    using chain(2) by simp
next
  show "\<exists>pre post ts.
          recipients (receipt (ses r)) = pre @ post \<and> length ts = Suc (length pre) \<and>
          ts ! 0 = tr \<and>
          (\<forall>i < length pre.
             forward_mail st ext (pre ! i) (messageId (mail (ses r))) (ts ! i) =
               (Inr (), ts ! Suc i)) \<and>
          (post = [] \<or>
           (\<exists>x post' e tr_e.
              post = x # post' \<and>
              forward_mail st ext x (messageId (mail (ses r))) (last ts) = (Inl e, tr_e)))"
    by (rule forward_loop_chain_exists)
qed

theorem lambda_handler_attempts_witness:
  "Records sample_event = first_record # [second_record]
   \<and> is_ses_spam sample_event = Inr False
   \<and> recipients (receipt (ses first_record)) = [''code@coder.dev'', ''code2@coder.dev'']
   \<and> lambda_handler default_settings reliable_extern sample_event [] =
       (Inr (),
        [ForwardMail ''code@coder.dev'' ''m1'',
         S3GetObject ''yourbucketname'' ''m1'' (Inr ''raw''),
         SesSendRawEmail ''us-east-1'' (Some ''code@coder.dev'') [Some ''to@anywhere.com'']
           ''test 3 addresses'' (Inr ''0001''),
         ForwardMail ''code2@coder.dev'' ''m1'',
         S3GetObject ''yourbucketname'' ''m1'' (Inr ''raw''),
         SesSendRawEmail ''us-east-1'' (Some ''code2@coder.dev'') [Some ''to@anywhere.com'']
           ''test 3 addresses'' (Inr ''0001'')])
   \<and> lambda_handler default_settings flaky_store_extern sample_event [] =
       (Inl (ClientError ''SlowDown''),
        [ForwardMail ''code@coder.dev'' ''m1'',
         S3GetObject ''yourbucketname'' ''m1'' (Inl (ClientError ''SlowDown''))])
   \<and> lambda_handler default_settings second_get_fails_extern sample_event [] =
       (Inl (ClientError ''SlowDown''),
        [ForwardMail ''code@coder.dev'' ''m1'',
         S3GetObject ''yourbucketname'' ''m1'' (Inr ''raw''),
         SesSendRawEmail ''us-east-1'' (Some ''code@coder.dev'') [Some ''to@anywhere.com'']
           ''test 3 addresses'' (Inr ''0001''),
         ForwardMail ''code2@coder.dev'' ''m1'',
         S3GetObject ''yourbucketname'' ''m1'' (Inl (ClientError ''SlowDown''))])"
proof -
  let ?ta = "[ForwardMail ''code@coder.dev'' ''m1'',
         S3GetObject ''yourbucketname'' ''m1'' (Inr ''raw''),
         SesSendRawEmail ''us-east-1'' (Some ''code@coder.dev'') [Some ''to@anywhere.com'']
           ''test 3 addresses'' (Inr ''0001'')]"
  let ?tb = "?ta @ [ForwardMail ''code2@coder.dev'' ''m1'',
         S3GetObject ''yourbucketname'' ''m1'' (Inr ''raw''),
         SesSendRawEmail ''us-east-1'' (Some ''code2@coder.dev'') [Some ''to@anywhere.com'']
           ''test 3 addresses'' (Inr ''0001'')]"
  let ?te = "[ForwardMail ''code@coder.dev'' ''m1'',
         S3GetObject ''yourbucketname'' ''m1'' (Inl (ClientError ''SlowDown''))]"
  let ?tf = "?ta @ [ForwardMail ''code2@coder.dev'' ''m1'',
         S3GetObject ''yourbucketname'' ''m1'' (Inl (ClientError ''SlowDown''))]"
  have a: "Records sample_event = first_record # [second_record]"
    by (simp add: sample_event_def)
  have b: "is_ses_spam sample_event = Inr False"
    by (simp add: is_ses_spam_def tracked_verdicts_def sample_event_def first_record_def)
  have rs: "recipients (receipt (ses first_record)) = [''code@coder.dev'', ''code2@coder.dev'']"
    and mid: "messageId (mail (ses first_record)) = ''m1''"
    by (simp_all add: first_record_def)
  have r1: "forward_mail default_settings reliable_extern ''code@coder.dev'' ''m1'' [] =
      (Inr (), ?ta)"
    by (simp add: eval_defs default_settings_def reliable_extern_def forged_message_def)
  have r2: "forward_mail default_settings reliable_extern ''code2@coder.dev'' ''m1'' ?ta =
      (Inr (), ?tb)"
    by (simp add: eval_defs default_settings_def reliable_extern_def forged_message_def)
  have f1: "forward_mail default_settings flaky_store_extern ''code@coder.dev'' ''m1'' [] =
      (Inl (ClientError ''SlowDown''), ?te)"
    by (simp add: eval_defs default_settings_def flaky_store_extern_def reliable_extern_def)
  have s1: "forward_mail default_settings second_get_fails_extern ''code@coder.dev'' ''m1'' [] =
      (Inr (), ?ta)"
    by (simp add: eval_defs default_settings_def second_get_fails_extern_def
        reliable_extern_def forged_message_def)
  have s2: "forward_mail default_settings second_get_fails_extern ''code2@coder.dev'' ''m1'' ?ta =
      (Inl (ClientError ''SlowDown''), ?tf)"
    by (simp add: eval_defs default_settings_def second_get_fails_extern_def
        reliable_extern_def)
  note inst = lambda_handler_attempts [OF a b, where st = default_settings and tr = "[]",
      THEN conjunct1, rule_format]
  have ra: "lambda_handler default_settings reliable_extern sample_event [] = (Inr (), ?tb)"
    using inst [where ext = reliable_extern and pre = "[''code@coder.dev'', ''code2@coder.dev'']"
        and post = "[]" and ts = "[[], ?ta, ?tb]", THEN conjunct2, THEN conjunct1]
      rs mid r1 r2
    by (simp add: less_Suc_eq nth_Cons')
  have rb: "lambda_handler default_settings flaky_store_extern sample_event [] =
      (Inl (ClientError ''SlowDown''), ?te)"
    using inst [where ext = flaky_store_extern and pre = "[]"
        and post = "[''code@coder.dev'', ''code2@coder.dev'']" and ts = "[[]]",
        THEN conjunct2, THEN conjunct2, rule_format,
        where x = "''code@coder.dev''" and post' = "[''code2@coder.dev'']"
        and e = "ClientError ''SlowDown''" and tr_e = ?te]
      rs mid f1
    by simp
  have rc: "lambda_handler default_settings second_get_fails_extern sample_event [] =
      (Inl (ClientError ''SlowDown''), ?tf)"
    using inst [where ext = second_get_fails_extern and pre = "[''code@coder.dev'']"
        and post = "[''code2@coder.dev'']" and ts = "[[], ?ta]",
        THEN conjunct2, THEN conjunct2, rule_format,
        where x = "''code2@coder.dev''" and post' = "[]"
        and e = "ClientError ''SlowDown''" and tr_e = ?tf]
      rs mid s1 s2
    by simp
  from a b rs ra rb rc show ?thesis
    by simp
qed

text \<open>
  The store fails once and would answer the second call: the first attempt raises, and
  the second recipient, who is on the list, is never attempted.
\<close>

theorem lambda_handler_stops_counterexample:
  "is_ses_spam sample_event = Inr False
   \<and> get_ses_recipients sample_event = Inr [''code@coder.dev'', ''code2@coder.dev'']
   \<and> lambda_handler default_settings flaky_store_extern sample_event [] =
       (Inl (ClientError ''SlowDown''),
        [ForwardMail ''code@coder.dev'' ''m1'',
         S3GetObject ''yourbucketname'' ''m1'' (Inl (ClientError ''SlowDown''))])
   \<and> attempts (snd (lambda_handler default_settings flaky_store_extern sample_event [])) =
       [(''code@coder.dev'', ''m1'')]"
  by (simp add: lambda_handler_def is_ses_spam_def get_ses_recipients_def tracked_verdicts_def
      sample_event_def first_record_def eval_defs default_settings_def flaky_store_extern_def
      reliable_extern_def)



text \<open>
  Claim C10. The handler reads the message id, the verdicts and the recipients from
  the first record only: it behaves on an event as on the event cut down to its first
  record, and every forwarding attempt it adds is for a recipient of the first record
  with the message id of the first record.
\<close>

theorem lambda_handler_first_record_only:
  assumes "Records ev = r # rest"
  shows "lambda_handler st ext ev tr = lambda_handler st ext (ev\<lparr>Records := [r]\<rparr>) tr
     \<and> set (attempts (snd (lambda_handler st ext ev tr))) \<subseteq>
         set (attempts tr) \<union>
         (\<lambda>x. (x, messageId (mail (ses r)))) ` set (recipients (receipt (ses r)))"
proof
  show "lambda_handler st ext ev tr = lambda_handler st ext (ev\<lparr>Records := [r]\<rparr>) tr"
    using assms
    by (simp add: lambda_handler_def is_ses_spam_def get_ses_recipients_def split: bool.splits)
next
  let ?rs = "recipients (receipt (ses r))" and ?mid = "messageId (mail (ses r))"
  obtain res tr' where h: "lambda_handler st ext ev tr = (res, tr')"
    by force
  have "set (attempts tr') \<subseteq> set (attempts tr) \<union> (\<lambda>x. (x, ?mid)) ` set ?rs"
  proof (cases "is_ses_spam ev = Inr False")
    case True
    with assms h have "forward_loop st ext ?rs ?mid tr = (res, tr')"
      by (simp add: lambda_handler_def get_ses_recipients_def)
    from forward_loop_attempts [OF this] obtain n where
      "attempts tr' = attempts tr @ map (\<lambda>x. (x, ?mid)) (take n ?rs)"
      by blast
    then show ?thesis
      by (auto dest: in_set_takeD)
  next
    case False
    then have "tr' = tr"
      using assms h
      by (auto simp: lambda_handler_def is_ses_spam_def split: if_splits bool.splits)
    then show ?thesis by auto
  qed
  with h show "set (attempts (snd (lambda_handler st ext ev tr))) \<subseteq>
         set (attempts tr) \<union> (\<lambda>x. (x, ?mid)) ` set ?rs"
    by simp
qed

theorem lambda_handler_first_record_only_witness:
  "Records sample_event = first_record # [second_record]
   \<and> lambda_handler default_settings reliable_extern sample_event [] =
       lambda_handler default_settings reliable_extern \<lparr>Records = [first_record]\<rparr> []
   \<and> attempts (snd (lambda_handler default_settings reliable_extern sample_event [])) =
       [(''code@coder.dev'', ''m1''), (''code2@coder.dev'', ''m1'')]"
proof -
  have a: "Records sample_event = first_record # [second_record]"
    by (simp add: sample_event_def)
  have c: "lambda_handler default_settings reliable_extern \<lparr>Records = [first_record]\<rparr> [] =
     (Inr (),
      [ForwardMail ''code@coder.dev'' ''m1'',
       S3GetObject ''yourbucketname'' ''m1'' (Inr ''raw''),
       SesSendRawEmail ''us-east-1'' (Some ''code@coder.dev'')
         [Some ''to@anywhere.com''] ''test 3 addresses'' (Inr ''0001''),
       ForwardMail ''code2@coder.dev'' ''m1'',
       S3GetObject ''yourbucketname'' ''m1'' (Inr ''raw''),
       SesSendRawEmail ''us-east-1'' (Some ''code2@coder.dev'')
         [Some ''to@anywhere.com''] ''test 3 addresses'' (Inr ''0001'')])"
    by (simp add: lambda_handler_def is_ses_spam_def get_ses_recipients_def tracked_verdicts_def
        first_record_def eval_defs default_settings_def reliable_extern_def forged_message_def)
  show ?thesis
    using a c
      lambda_handler_first_record_only [OF a, where st = default_settings
        and ext = reliable_extern and tr = "[]"]
    by (simp add: sample_event_def)
qed

end
